theory Spec2Isabelle
  imports Main "HOL-Library.Sublist"
begin

section \<open>Values of the program\<close>

text \<open>
  Everything a piece of the program can throw. \<open>MiniflareCoreError code message\<close> is the
  configuration error of \<open>../error\<close>, \<open>AssertionError\<close> is what \<open>assert\<close> throws (with the
  message passed to it, if any), \<open>SystemError code message\<close> is a failure of the file system
  (\<open>code\<close> is \<open>ENOENT\<close> for a missing file), and \<open>Thrown\<close> is any other thrown value.
\<close>

datatype exn =
    MiniflareCoreError string string
  | AssertionError "string option"
  | SystemError string string
  | Thrown string

text \<open>The \<open>e.code\<close> property read by the handler of the env file.\<close>

fun code :: "exn \<Rightarrow> string option" where
  "code (MiniflareCoreError c m) = Some c"
| "code (AssertionError m) = Some ''ERR_ASSERTION''"
| "code (SystemError c m) = Some c"
| "code (Thrown v) = None"

text \<open>
  Modelled from the spec: the \<open>Response\<close> value type of \<open>../standards\<close>, of which the
  program only uses the constructor from a body and a description of status and headers.
\<close>

record response =
  body :: "string option"
  status :: nat
  headers :: "(string \<times> string) list"

text \<open>
  \<open>FetcherFetch = (request: Request) => Awaitable<Response>\<close>: a handler either yields a
  response or throws or rejects (\<open>Inl\<close>). The request type is opaque.
\<close>

type_synonym 'rq FetcherFetch = "'rq \<Rightarrow> exn + response"

text \<open>The \<open>service\<close> of a processed binding: \<open>string | FetcherFetch\<close>.\<close>

datatype 'rq service_target = Named string | Custom "'rq FetcherFetch"

text \<open>An entry of \<open>ServiceBindingsOptions\<close>: a service name, an object, or a handler.\<close>

datatype 'rq service_option =
    JustName string
  | ServiceObject string "string option"
  | Handler "'rq FetcherFetch"

record 'rq ProcessedServiceBinding =
  name :: string
  service :: "'rq service_target"
  environment :: string

text \<open>
  A mount of the hosting framework; the program reads only its \<open>dispatchFetch\<close>, which is
  optional.
\<close>

record 'rq Mount =
  dispatchFetch :: "'rq FetcherFetch option"

type_synonym 'rq mounts = "string \<rightharpoonup> 'rq Mount"

text \<open>
  A \<open>Fetcher\<close> holds the service it was built for; its logger and its \<open>getServiceFetch\<close>
  are those of the plugin that built it.
\<close>

record 'rq Fetcher =
  fetcher_service :: "'rq service_target"

text \<open>The values a binding can have.\<close>

datatype 'rq jsvalue =
    Str string
  | WasmModule string
  | FetcherValue "'rq Fetcher"
  | Other string

type_synonym 'rq Context = "string \<rightharpoonup> 'rq jsvalue"

datatype env_path = EnvBool bool | EnvPath string

record 'rq BindingsOptions =
  opt_envPath :: "env_path option"
  opt_wranglerBindings :: "'rq Context option"
  opt_envPathDefaultFallback :: "bool option"
  opt_bindings :: "'rq Context option"
  opt_globals :: "'rq Context option"
  opt_wasmBindings :: "(string \<times> string) list option"
  opt_serviceBindings :: "(string \<times> 'rq service_option) list option"

section \<open>The plugin\<close>

text \<open>
  A promise is a cell of the store \<open>promises\<close>: \<open>new Promise\<close> appends a pending cell, and
  the \<open>resolve\<close> function of a promise fulfils its cell. \<open>contextPromise\<close> and
  \<open>contextResolve\<close> hold the address of the promise they belong to.
\<close>

datatype promise_state = Pending | Fulfilled

record 'rq BindingsPlugin =
  rootPath :: string
  envPath :: "env_path option"
  wranglerBindings :: "'rq Context option"
  envPathDefaultFallback :: "bool option"
  bindings :: "'rq Context option"
  globals :: "'rq Context option"
  wasmBindings :: "(string \<times> string) list option"
  serviceBindings :: "(string \<times> 'rq service_option) list option"
  processedServiceBindings :: "'rq ProcessedServiceBinding list"
  contextPromise :: "nat option"
  contextResolve :: "nat option"
  mounts :: "'rq mounts option"
  promises :: "promise_state list"

fun process_binding :: "string \<times> 'rq service_option \<Rightarrow> 'rq ProcessedServiceBinding" where
  "process_binding (n, JustName s) =
     \<lparr>name = n, service = Named s, environment = ''production''\<rparr>"
| "process_binding (n, ServiceObject s e) =
     \<lparr>name = n, service = Named s,
      environment = (case e of None \<Rightarrow> ''production''
                     | Some v \<Rightarrow> if v = [] then ''production'' else v)\<rparr>"
| "process_binding (n, Handler h) =
     \<lparr>name = n, service = Custom h, environment = ''production''\<rparr>"

text \<open>The constructor, on the root path of the plugin context and the options.\<close>

definition new_BindingsPlugin :: "string \<Rightarrow> 'rq BindingsOptions \<Rightarrow> 'rq BindingsPlugin" where
  "new_BindingsPlugin root opts =
     \<lparr>rootPath = root,
      envPath = (if opt_envPathDefaultFallback opts = Some True \<and> opt_envPath opts = None
                 then Some (EnvBool True) else opt_envPath opts),
      wranglerBindings = opt_wranglerBindings opts,
      envPathDefaultFallback = opt_envPathDefaultFallback opts,
      bindings = opt_bindings opts,
      globals = opt_globals opts,
      wasmBindings = opt_wasmBindings opts,
      serviceBindings = opt_serviceBindings opts,
      processedServiceBindings =
        map process_binding (case opt_serviceBindings opts of None \<Rightarrow> [] | Some sb \<Rightarrow> sb),
      contextPromise = None,
      contextResolve = None,
      mounts = None,
      promises = []\<rparr>"

subsection \<open>The reload lifecycle\<close>

definition beforeReload :: "'rq BindingsPlugin \<Rightarrow> 'rq BindingsPlugin" where
  "beforeReload s =
     s\<lparr>mounts := None,
       contextPromise := Some (length (promises s)),
       contextResolve := Some (length (promises s)),
       promises := promises s @ [Pending]\<rparr>"

definition not_mounted_message :: "string \<Rightarrow> string \<Rightarrow> string" where
  "not_mounted_message svc n =
     ''Service '' @ [CHR 0x22] @ svc @ [CHR 0x22] @ '' for binding '' @ [CHR 0x22] @ n
       @ [CHR 0x22] @ '' not found.'' @ [CHR 0x0A] @ ''Make sure '' @ [CHR 0x22] @ svc
       @ [CHR 0x22] @ '' is mounted so Miniflare knows where to find it.''"

text \<open>The loop that checks that all services are mounted: the first failure is thrown.\<close>

fun check_mounted :: "'rq ProcessedServiceBinding list \<Rightarrow> 'rq mounts \<Rightarrow> exn option" where
  "check_mounted [] m = None"
| "check_mounted (b # bs) m =
     (case service b of
        Named svc \<Rightarrow>
          (if m svc = None
           then Some (MiniflareCoreError ''ERR_SERVICE_NOT_MOUNTED''
                        (not_mounted_message svc (name b)))
           else check_mounted bs m)
      | Custom h \<Rightarrow> check_mounted bs m)"

text \<open>
  \<open>reload\<close> returns what it throws, if anything, and the plugin as it has left it. Its
  parameters \<open>bindings\<close> and \<open>moduleExports\<close> are not read.
\<close>

definition reload ::
  "'rq BindingsPlugin \<Rightarrow> 'rq Context \<Rightarrow> 'rq Context \<Rightarrow> 'rq mounts
     \<Rightarrow> exn option \<times> 'rq BindingsPlugin" where
  "reload s bnds moduleExports m =
     (case check_mounted (processedServiceBindings s) m of
        Some e \<Rightarrow> (Some e, s)
      | None \<Rightarrow>
          (let s1 = s\<lparr>mounts := Some m\<rparr> in
           case contextResolve s1 of
             None \<Rightarrow> (Some (AssertionError (Some ''beforeReload() must be called before reload()'')), s1)
           | Some p \<Rightarrow> (None, s1\<lparr>promises := (promises s1)[p := Fulfilled]\<rparr>)))"

definition dispose :: "'rq BindingsPlugin \<Rightarrow> 'rq BindingsPlugin" where
  "dispose s = beforeReload s"

text \<open>The calls of the lifecycle driver, and the plugin after a sequence of them.\<close>

datatype 'rq event = BeforeReload | Reload "'rq Context" "'rq Context" "'rq mounts" | Dispose

fun step :: "'rq BindingsPlugin \<Rightarrow> 'rq event \<Rightarrow> 'rq BindingsPlugin" where
  "step s BeforeReload = beforeReload s"
| "step s (Reload b me m) = snd (reload s b me m)"
| "step s Dispose = dispose s"

definition run :: "'rq event list \<Rightarrow> 'rq BindingsPlugin \<Rightarrow> 'rq BindingsPlugin" where
  "run es s = foldl step s es"

subsection \<open>Dispatch\<close>

text \<open>
  A call of \<open>Fetcher.fetch\<close> is either settled, with the response or the rejection the
  caller gets, or suspended at the \<open>await\<close> of \<open>getServiceFetch\<close> on the promise that was
  \<open>contextPromise\<close> when it was called, with the service name and the request it holds.
\<close>

datatype 'rq dispatch =
    Settled "exn + response"
  | Awaiting nat string "'rq"

text \<open>
  \<open>getServiceFetch\<close> up to its \<open>await\<close>: the assertion, then the promise awaited.
\<close>

definition getServiceFetch_begin :: "'rq BindingsPlugin \<Rightarrow> exn + nat" where
  "getServiceFetch_begin s =
     (case contextPromise s of
        None \<Rightarrow> Inl (AssertionError
                 (Some ''beforeReload() must be called before #getServiceFetch()''))
      | Some p \<Rightarrow> Inr p)"

text \<open>\<open>getServiceFetch\<close> after its \<open>await\<close>, in the plugin as it is then.\<close>

definition getServiceFetch_resume :: "'rq BindingsPlugin \<Rightarrow> string \<Rightarrow> exn + 'rq FetcherFetch" where
  "getServiceFetch_resume s svc =
     (case mounts s of
        None \<Rightarrow> Inl (AssertionError None)
      | Some m \<Rightarrow>
          (case m svc of
             None \<Rightarrow> Inl (AssertionError None)
           | Some mt \<Rightarrow>
               (case dispatchFetch mt of
                  None \<Rightarrow> Inl (AssertionError None)
                | Some f \<Rightarrow> Inr f)))"

definition exception_response :: response where
  "exception_response =
     \<lparr>body = None, status = 500, headers = [(''CF-Worker-Status'', ''exception'')]\<rparr>"

text \<open>
  \<open>Fetcher.fetch\<close> up to its first \<open>await\<close>. \<open>newRequest\<close> is the constructor of
  \<open>Request\<close> on the arguments of the call, which may throw.
\<close>

definition Fetcher_fetch ::
  "('i \<Rightarrow> exn + 'rq) \<Rightarrow> 'rq BindingsPlugin \<Rightarrow> 'rq Fetcher \<Rightarrow> 'i \<Rightarrow> 'rq dispatch" where
  "Fetcher_fetch newRequest s f input =
     (case newRequest input of
        Inl e \<Rightarrow> Settled (Inl e)
      | Inr request \<Rightarrow>
          (case fetcher_service f of
             Custom h \<Rightarrow> Settled (h request)
           | Named svc \<Rightarrow>
               (case getServiceFetch_begin s of
                  Inl e \<Rightarrow> Settled (Inl e)
                | Inr p \<Rightarrow> Awaiting p svc request)))"

text \<open>
  The logger of the plugin context, which the program takes from outside: its method
  \<open>error\<close>, on the error it is given and the errors recorded so far, gives what it throws,
  if anything, and the errors recorded after the call.
\<close>

type_synonym Log = "exn \<Rightarrow> exn list \<Rightarrow> exn option \<times> exn list"

text \<open>
  The \<open>try\<close> statement of \<open>Fetcher.fetch\<close>: the handler is called on the request, and
  when it throws or rejects the error is given to the logger and the response for an
  exception is returned. The call of the logger stands in the \<open>catch\<close> block: what it
  throws leaves \<open>Fetcher.fetch\<close>.
\<close>

definition fetch_contained ::
  "Log \<Rightarrow> 'rq FetcherFetch \<Rightarrow> 'rq \<Rightarrow> exn list \<Rightarrow> 'rq dispatch \<times> exn list" where
  "fetch_contained log_error fetch request lg =
     (case fetch request of
        Inr r \<Rightarrow> (Settled (Inr r), lg)
      | Inl e \<Rightarrow>
          (case log_error e lg of
             (Some thrown, lg') \<Rightarrow> (Settled (Inl thrown), lg')
           | (None, lg') \<Rightarrow> (Settled (Inr exception_response), lg')))"

text \<open>
  The rest of \<open>Fetcher.fetch\<close>, run by the scheduler in the plugin \<open>s\<close> of that moment, with
  the logger and the errors recorded so far: a dispatch whose promise is still pending
  stays suspended.
\<close>

fun resume ::
  "Log \<Rightarrow> 'rq BindingsPlugin \<Rightarrow> exn list \<Rightarrow> 'rq dispatch \<Rightarrow> 'rq dispatch \<times> exn list" where
  "resume log_error s lg (Settled r) = (Settled r, lg)"
| "resume log_error s lg (Awaiting p svc request) =
     (if p < length (promises s) \<and> promises s ! p = Fulfilled
      then (case getServiceFetch_resume s svc of
              Inl e \<Rightarrow> (Settled (Inl e), lg)
            | Inr fetch \<Rightarrow> fetch_contained log_error fetch request lg)
      else (Awaiting p svc request, lg))"

section \<open>Composition of the bindings\<close>

text \<open>
  What \<open>setup\<close> takes from outside the program: \<open>fs.readFile\<close>, \<open>path.resolve\<close>,
  \<open>dotenv.parse\<close> and the constructor of \<open>WebAssembly.Module\<close>. Reading a file and
  compiling a module may throw.
\<close>

record host =
  readFile :: "string \<Rightarrow> exn + string"
  path_resolve :: "string \<Rightarrow> string \<Rightarrow> string"
  dotenv_parse :: "string \<Rightarrow> (string \<rightharpoonup> string)"
  WebAssembly_Module :: "string \<Rightarrow> exn + string"

record 'rq SetupResult =
  res_globals :: "'rq Context option"
  res_bindings :: "'rq Context"
  res_watch :: "string list"

text \<open>
  The bindings are a plain object, of which a \<open>Context\<close> holds the own properties. The
  assignment \<open>bindings[name] = value\<close> stores the property, but for the name
  \<open>__proto__\<close>: that name is the accessor of \<open>Object.prototype\<close>, whose setter stores no
  property (it replaces the prototype of the object when the value is an object, and the
  prototype is not part of a \<open>Context\<close>).
\<close>

definition set_property :: "'rq Context \<Rightarrow> string \<Rightarrow> 'rq jsvalue \<Rightarrow> 'rq Context" where
  "set_property b k v = (if k = ''__proto__'' then b else b(k \<mapsto> v))"

text \<open>
  \<open>Object.assign(target, source)\<close> assigns every own property of the source to the target
  in that way; an undefined source assigns nothing.
\<close>

definition Object_assign :: "'rq Context \<Rightarrow> 'rq Context option \<Rightarrow> 'rq Context" where
  "Object_assign target source =
     (case source of
        None \<Rightarrow> target
      | Some m \<Rightarrow> (\<lambda>k. if k = ''__proto__'' then target k else (target ++ m) k))"

text \<open>
  Step 2 of \<open>setup\<close>, on the bindings and the watch list so far: \<open>true\<close> stands for
  \<open>.env\<close>, and nothing is done for a path that is undefined, \<open>false\<close> or empty.
\<close>

definition load_env ::
  "host \<Rightarrow> 'rq BindingsPlugin \<Rightarrow> 'rq Context \<times> string list
     \<Rightarrow> exn + ('rq Context \<times> string list)" where
  "load_env h p st =
     (case (if envPath p = Some (EnvBool True) then Some (EnvPath ''.env'') else envPath p) of
        Some (EnvPath ep) \<Rightarrow>
          (if ep = [] then Inr st
           else
             (let ep' = path_resolve h (rootPath p) ep in
              case readFile h ep' of
                Inr contents \<Rightarrow>
                  Inr (Object_assign (fst st) (Some (map_option Str \<circ> dotenv_parse h contents)),
                       snd st @ [ep'])
              | Inl e \<Rightarrow>
                  (if \<not> (code e = Some ''ENOENT'' \<and> envPath p = Some (EnvBool True))
                   then Inl e
                   else Inr (fst st, snd st @ [ep']))))
      | _ \<Rightarrow> Inr st)"

text \<open>Step 3: the body of the loop over the WebAssembly bindings, and the loop.\<close>

definition load_wasm_entry ::
  "host \<Rightarrow> string \<Rightarrow> string \<times> string \<Rightarrow> 'rq Context \<times> string list
     \<Rightarrow> exn + ('rq Context \<times> string list)" where
  "load_wasm_entry h root entry st =
     (let wasmPath = path_resolve h root (snd entry) in
      case readFile h wasmPath of
        Inl e \<Rightarrow> Inl e
      | Inr bytes \<Rightarrow>
          (case WebAssembly_Module h bytes of
             Inl e \<Rightarrow> Inl e
           | Inr md \<Rightarrow>
               Inr (set_property (fst st) (fst entry) (WasmModule md), snd st @ [wasmPath])))"

fun load_wasm ::
  "host \<Rightarrow> string \<Rightarrow> (string \<times> string) list \<Rightarrow> 'rq Context \<times> string list
     \<Rightarrow> exn + ('rq Context \<times> string list)" where
  "load_wasm h root [] st = Inr st"
| "load_wasm h root (entry # rest) st =
     (case load_wasm_entry h root entry st of
        Inl e \<Rightarrow> Inl e
      | Inr st' \<Rightarrow> load_wasm h root rest st')"

text \<open>Step 4: one Fetcher for each processed service binding.\<close>

fun load_services :: "'rq ProcessedServiceBinding list \<Rightarrow> 'rq Context \<Rightarrow> 'rq Context" where
  "load_services [] b = b"
| "load_services (sb # rest) b =
     load_services rest
       (set_property b (name sb) (FetcherValue \<lparr>fetcher_service = service sb\<rparr>))"

definition BindingsPlugin_setup :: "host \<Rightarrow> 'rq BindingsPlugin \<Rightarrow> exn + 'rq SetupResult" where
  "BindingsPlugin_setup h p =
     (let b1 = Object_assign Map.empty (wranglerBindings p) in
      case load_env h p (b1, []) of
        Inl e \<Rightarrow> Inl e
      | Inr st2 \<Rightarrow>
          (case (case wasmBindings p of
                   None \<Rightarrow> Inr st2
                 | Some entries \<Rightarrow> load_wasm h (rootPath p) entries st2) of
             Inl e \<Rightarrow> Inl e
           | Inr st3 \<Rightarrow>
               (let b4 = load_services (processedServiceBindings p) (fst st3);
                    b5 = Object_assign b4 (bindings p)
                in Inr \<lparr>res_globals = globals p, res_bindings = b5, res_watch = snd st3\<rparr>)))"

subsection \<open>The five sources, as the specification names them\<close>

text \<open>
  What each source contributes, in ascending priority: the platform variables, the
  variable file, the binary modules, the service bindings, the user's bindings. The
  sources are read off the configuration and the host; none is computed by a step of
  \<open>setup\<close>.
\<close>

definition wrangler_source :: "'rq BindingsPlugin \<Rightarrow> 'rq Context" where
  "wrangler_source p = (case wranglerBindings p of None \<Rightarrow> Map.empty | Some m \<Rightarrow> m)"

text \<open>The env path in effect, if any: \<open>.env\<close> by default, or a path that is not empty.\<close>

definition env_path_in_effect :: "'rq BindingsPlugin \<Rightarrow> string option" where
  "env_path_in_effect p =
     (case envPath p of
        Some (EnvBool True) \<Rightarrow> Some ''.env''
      | Some (EnvPath ep) \<Rightarrow> (if ep = [] then None else Some ep)
      | _ \<Rightarrow> None)"

text \<open>The variables of the file at the env path in effect, when it can be read.\<close>

definition env_source :: "host \<Rightarrow> 'rq BindingsPlugin \<Rightarrow> 'rq Context" where
  "env_source h p =
     (case env_path_in_effect p of
        None \<Rightarrow> Map.empty
      | Some ep \<Rightarrow>
          (case readFile h (path_resolve h (rootPath p) ep) of
             Inl e \<Rightarrow> Map.empty
           | Inr contents \<Rightarrow> map_option Str \<circ> dotenv_parse h contents))"

text \<open>
  The module compiled from the file at a path, and the modules of the WebAssembly
  bindings: a name has the module of the last entry under it.
\<close>

definition wasm_module :: "host \<Rightarrow> string \<Rightarrow> string \<Rightarrow> string option" where
  "wasm_module h root path =
     (case readFile h (path_resolve h root path) of
        Inl e \<Rightarrow> None
      | Inr bytes \<Rightarrow>
          (case WebAssembly_Module h bytes of
             Inl e \<Rightarrow> None
           | Inr md \<Rightarrow> Some md))"

definition wasm_entries_source ::
  "host \<Rightarrow> string \<Rightarrow> (string \<times> string) list \<Rightarrow> 'rq Context" where
  "wasm_entries_source h root entries k =
     (case map_of (rev entries) k of
        None \<Rightarrow> None
      | Some path \<Rightarrow> map_option WasmModule (wasm_module h root path))"

definition wasm_source :: "host \<Rightarrow> 'rq BindingsPlugin \<Rightarrow> 'rq Context" where
  "wasm_source h p =
     (case wasmBindings p of
        None \<Rightarrow> Map.empty
      | Some entries \<Rightarrow> wasm_entries_source h (rootPath p) entries)"

text \<open>A Fetcher for each service binding, the last one under a name.\<close>

definition service_entries_source :: "'rq ProcessedServiceBinding list \<Rightarrow> 'rq Context" where
  "service_entries_source sbs =
     map_of (rev (map (\<lambda>sb. (name sb, FetcherValue \<lparr>fetcher_service = service sb\<rparr>)) sbs))"

definition service_source :: "'rq BindingsPlugin \<Rightarrow> 'rq Context" where
  "service_source p = service_entries_source (processedServiceBindings p)"

definition user_source :: "'rq BindingsPlugin \<Rightarrow> 'rq Context" where
  "user_source p = (case bindings p of None \<Rightarrow> Map.empty | Some m \<Rightarrow> m)"

text \<open>
  The value of a name in sources listed in ascending priority: that of the last source
  that has the name.
\<close>

fun highest_priority :: "('k \<rightharpoonup> 'v) list \<Rightarrow> 'k \<Rightarrow> 'v option" where
  "highest_priority [] k = None"
| "highest_priority (src # srcs) k =
     (case highest_priority srcs k of Some v \<Rightarrow> Some v | None \<Rightarrow> src k)"

text \<open>The paths the specification puts on the watch list.\<close>

definition env_watch :: "host \<Rightarrow> 'rq BindingsPlugin \<Rightarrow> string list" where
  "env_watch h p =
     (case env_path_in_effect p of
        None \<Rightarrow> []
      | Some ep \<Rightarrow> [path_resolve h (rootPath p) ep])"

definition wasm_watch :: "host \<Rightarrow> 'rq BindingsPlugin \<Rightarrow> string list" where
  "wasm_watch h p =
     (case wasmBindings p of
        None \<Rightarrow> []
      | Some entries \<Rightarrow> map (\<lambda>entry. path_resolve h (rootPath p) (snd entry)) entries)"

section \<open>Predicates of the specification\<close>

text \<open>
  A processed binding that names a service that is not a key of the mount table, and the
  service it names.
\<close>

definition unmounted :: "'rq mounts \<Rightarrow> 'rq ProcessedServiceBinding \<Rightarrow> bool" where
  "unmounted m b = (case service b of Named svc \<Rightarrow> m svc = None | Custom h \<Rightarrow> False)"

definition service_name :: "'rq ProcessedServiceBinding \<Rightarrow> string" where
  "service_name b = (case service b of Named svc \<Rightarrow> svc | Custom h \<Rightarrow> [])"

text \<open>The promise in \<open>contextPromise\<close> is a cell of the store.\<close>

definition allocated :: "'rq BindingsPlugin \<Rightarrow> bool" where
  "allocated s = (case contextPromise s of None \<Rightarrow> True | Some p \<Rightarrow> p < length (promises s))"

text \<open>A promise that is pending and is not the one \<open>contextResolve\<close> fulfils.\<close>

definition orphaned :: "nat \<Rightarrow> 'rq BindingsPlugin \<Rightarrow> bool" where
  "orphaned p s \<longleftrightarrow>
     p < length (promises s) \<and> promises s ! p = Pending \<and> contextResolve s \<noteq> Some p"

section \<open>Example configurations\<close>

text \<open>
  A plugin with the service binding \<open>AUTH\<close> to the service \<open>auth\<close>, mount tables with
  different handlers for \<open>auth\<close>, and a host with the files \<open>/app/vars.env\<close> and
  \<open>/app/add.wasm\<close> and no other. Requests are strings here.
\<close>

definition no_options :: "string BindingsOptions" where
  "no_options =
     \<lparr>opt_envPath = None, opt_wranglerBindings = None, opt_envPathDefaultFallback = None,
      opt_bindings = None, opt_globals = None, opt_wasmBindings = None,
      opt_serviceBindings = None\<rparr>"

definition auth_plugin :: "string BindingsPlugin" where
  "auth_plugin =
     new_BindingsPlugin ''/app''
       (no_options\<lparr>opt_serviceBindings := Some [(''AUTH'', JustName ''auth'')]\<rparr>)"

definition response_one :: response where
  "response_one = \<lparr>body = Some ''one'', status = 200, headers = []\<rparr>"

definition response_two :: response where
  "response_two = \<lparr>body = Some ''two'', status = 200, headers = []\<rparr>"

definition mounts_one :: "string mounts" where
  "mounts_one = [''auth'' \<mapsto> \<lparr>dispatchFetch = Some (\<lambda>request. Inr response_one)\<rparr>]"

definition mounts_two :: "string mounts" where
  "mounts_two = [''auth'' \<mapsto> \<lparr>dispatchFetch = Some (\<lambda>request. Inr response_two)\<rparr>]"

definition mounts_failing :: "string mounts" where
  "mounts_failing = [''auth'' \<mapsto> \<lparr>dispatchFetch = Some (\<lambda>request. Inl (Thrown ''boom''))\<rparr>]"

definition example_host :: host where
  "example_host =
     \<lparr>readFile = (\<lambda>path.
        if path = ''/app/vars.env'' then Inr ''A=file-value''
        else if path = ''/app/add.wasm'' then Inr ''module-bytes''
        else Inl (SystemError ''ENOENT'' ''no such file or directory'')),
      path_resolve = (\<lambda>root path. root @ ''/'' @ path),
      dotenv_parse = (\<lambda>contents.
        if contents = ''A=file-value'' then [''A'' \<mapsto> ''file-value''] else Map.empty),
      WebAssembly_Module = (\<lambda>bytes. Inr bytes)\<rparr>"

definition override_plugin :: "string BindingsPlugin" where
  "override_plugin =
     new_BindingsPlugin ''/app''
       (no_options\<lparr>opt_envPath := Some (EnvPath ''vars.env''),
                   opt_bindings := Some [''A'' \<mapsto> Str ''override'']\<rparr>)"

definition default_env_plugin :: "string BindingsPlugin" where
  "default_env_plugin =
     new_BindingsPlugin ''/app''
       (no_options\<lparr>opt_envPathDefaultFallback := Some True,
                   opt_wasmBindings := Some [(''ADD'', ''add.wasm'')]\<rparr>)"

definition missing_env_plugin :: "string BindingsPlugin" where
  "missing_env_plugin =
     new_BindingsPlugin ''/app'' (no_options\<lparr>opt_envPath := Some (EnvPath ''absent.env'')\<rparr>)"

text \<open>
  A configuration in which the service bindings and the user's bindings both have the own
  property \<open>__proto__\<close>, as objects read by \<open>JSON.parse\<close> can.
\<close>

definition proto_plugin :: "string BindingsPlugin" where
  "proto_plugin =
     new_BindingsPlugin ''/app''
       (no_options\<lparr>opt_serviceBindings := Some [(''__proto__'', JustName ''auth'')],
                   opt_bindings := Some [''__proto__'' \<mapsto> Str ''override'']\<rparr>)"

text \<open>
  Two loggers: one records the error it is given, the other throws it and records
  nothing, as a log does that is set not to show errors.
\<close>

definition recording_log :: Log where
  "recording_log e lg = (None, lg @ [e])"

definition rethrowing_log :: Log where
  "rethrowing_log e lg = (Some e, lg)"

section \<open>The lifecycle\<close>

lemma run_Nil: "run [] s = s"
  by (simp add: run_def)

lemma run_Cons: "run (e # es) s = run es (step s e)"
  by (simp add: run_def)

lemma run_append: "run (es @ es') s = run es' (run es s)"
  by (simp add: run_def)

lemma reload_processed:
  "processedServiceBindings (snd (reload s b me m)) = processedServiceBindings s"
  by (simp add: reload_def Let_def split: option.splits)

lemma step_processed: "processedServiceBindings (step s e) = processedServiceBindings s"
  by (cases e) (simp_all add: beforeReload_def dispose_def reload_processed)

lemma run_processed: "processedServiceBindings (run es s) = processedServiceBindings s"
  by (induction es arbitrary: s) (simp_all add: run_Nil run_Cons step_processed)

lemma reload_context:
  "contextPromise (snd (reload s b me m)) = contextPromise s \<and>
   contextResolve (snd (reload s b me m)) = contextResolve s"
  by (simp add: reload_def Let_def split: option.splits)

lemma run_never_closed:
  "BeforeReload \<notin> set es \<Longrightarrow> Dispose \<notin> set es \<Longrightarrow>
   contextPromise s = None \<Longrightarrow> contextResolve s = None \<Longrightarrow>
   contextPromise (run es s) = None \<and> contextResolve (run es s) = None"
proof (induction es arbitrary: s)
  case Nil
  then show ?case by (simp add: run_Nil)
next
  case (Cons e es)
  then obtain b me m where e: "e = Reload b me m"
    by (cases e) auto
  have "contextPromise (step s e) = None" "contextResolve (step s e) = None"
    using Cons.prems e by (simp_all add: reload_context)
  then show ?case
    using Cons by (simp add: run_Cons)
qed

lemma new_never_closed:
  "BeforeReload \<notin> set es \<Longrightarrow> Dispose \<notin> set es \<Longrightarrow>
   contextPromise (run es (new_BindingsPlugin root opts)) = None \<and>
   contextResolve (run es (new_BindingsPlugin root opts)) = None"
  by (rule run_never_closed) (simp_all add: new_BindingsPlugin_def)

lemma reload_length:
  "length (promises (snd (reload s b me m))) = length (promises s)"
  by (simp add: reload_def Let_def split: option.splits)

lemma reload_promises_other:
  "contextResolve s \<noteq> Some p \<Longrightarrow> promises (snd (reload s b me m)) ! p = promises s ! p"
  by (auto simp: reload_def Let_def split: option.splits)

lemma step_allocated: "allocated s \<Longrightarrow> allocated (step s e)"
  by (cases e)
     (auto simp: allocated_def beforeReload_def dispose_def reload_context reload_length
           split: option.splits)

lemma run_allocated: "allocated s \<Longrightarrow> allocated (run es s)"
  by (induction es arbitrary: s) (simp_all add: run_Nil run_Cons step_allocated)

lemma new_allocated: "allocated (run es (new_BindingsPlugin root opts))"
  by (rule run_allocated) (simp add: allocated_def new_BindingsPlugin_def)

lemma step_orphaned: "orphaned p s \<Longrightarrow> orphaned p (step s e)"
proof (cases e)
  case BeforeReload
  assume "orphaned p s"
  then show ?thesis
    using BeforeReload by (auto simp: orphaned_def beforeReload_def nth_append)
next
  case (Reload b me m)
  assume "orphaned p s"
  then show ?thesis
    using Reload by (simp add: orphaned_def reload_length reload_promises_other reload_context)
next
  case Dispose
  assume "orphaned p s"
  then show ?thesis
    using Dispose by (auto simp: orphaned_def beforeReload_def dispose_def nth_append)
qed

lemma run_orphaned: "orphaned p s \<Longrightarrow> orphaned p (run es s)"
  by (induction es arbitrary: s) (simp_all add: run_Nil run_Cons step_orphaned)

lemma step_length: "length (promises s) \<le> length (promises (step s e))"
  by (cases e) (simp_all add: beforeReload_def dispose_def reload_length)

lemma run_length: "length (promises s) \<le> length (promises (run es s))"
proof (induction es arbitrary: s)
  case Nil
  show ?case by (simp add: run_Nil)
next
  case (Cons e es)
  have "length (promises s) \<le> length (promises (step s e))"
    by (rule step_length)
  also have "\<dots> \<le> length (promises (run es (step s e)))"
    by (rule Cons.IH)
  finally show ?case
    by (simp add: run_Cons)
qed

lemma beforeReload_orphans:
  "p < length (promises s) \<Longrightarrow> promises s ! p = Pending \<Longrightarrow> orphaned p (beforeReload s)"
  by (auto simp: orphaned_def beforeReload_def nth_append)

lemma awaited_is_contextPromise:
  "Fetcher_fetch newRequest s f input = Awaiting p svc request \<Longrightarrow> contextPromise s = Some p"
  by (auto simp: Fetcher_fetch_def getServiceFetch_begin_def
           split: sum.splits service_target.splits option.splits)

lemmas lifecycle_defs =
  run_def beforeReload_def dispose_def reload_def new_BindingsPlugin_def no_options_def
  auth_plugin_def Let_def

subsection \<open>Lifecycle calls out of order\<close>

text \<open>
  C6: a dispatch to a named service issued when neither \<open>beforeReload\<close> nor \<open>dispose\<close>
  has ever been called is rejected at once with the assertion error of
  \<open>getServiceFetch\<close>: it is not suspended and it gets no response.
\<close>

theorem dispatch_before_any_beforeReload_asserts:
  assumes "BeforeReload \<notin> set es" and "Dispose \<notin> set es"
    and "newRequest input = Inr request"
  shows "Fetcher_fetch newRequest (run es (new_BindingsPlugin root opts))
           \<lparr>fetcher_service = Named svc\<rparr> input =
         Settled (Inl (AssertionError
           (Some ''beforeReload() must be called before #getServiceFetch()'')))"
  using new_never_closed [OF assms(1,2), of root opts] assms(3)
  by (simp add: Fetcher_fetch_def getServiceFetch_begin_def)

theorem dispatch_before_any_beforeReload_asserts_witness:
  "Fetcher_fetch Inr (run [Reload Map.empty Map.empty mounts_one] auth_plugin)
     \<lparr>fetcher_service = Named ''auth''\<rparr> ''GET /'' =
   Settled (Inl (AssertionError
     (Some ''beforeReload() must be called before #getServiceFetch()'')))"
proof -
  have h1: "BeforeReload \<notin> set [Reload Map.empty Map.empty mounts_one]" by simp
  have h2: "Dispose \<notin> set [Reload Map.empty Map.empty mounts_one]" by simp
  have h3: "Inr ''GET /'' = (Inr ''GET /'' :: exn + string)" by simp
  show ?thesis
    using dispatch_before_any_beforeReload_asserts
      [where newRequest = Inr and input = "''GET /''" and request = "''GET /''"
         and root = "''/app''" and svc = "''auth''"
         and opts = "no_options\<lparr>opt_serviceBindings := Some [(''AUTH'', JustName ''auth'')]\<rparr>",
       OF h1 h2 h3]
    by (simp add: auth_plugin_def)
qed

text \<open>
  C5, as amended: a \<open>reload\<close> called when neither \<open>beforeReload\<close> nor \<open>dispose\<close> has
  ever been called on the plugin always fails: with \<open>ERR_SERVICE_NOT_MOUNTED\<close> when a named
  service is not mounted, and otherwise with the assertion error
  \<open>beforeReload() must be called before reload()\<close>.
\<close>

theorem reload_before_any_beforeReload_fails:
  assumes "BeforeReload \<notin> set es" and "Dispose \<notin> set es"
  shows "fst (reload (run es (new_BindingsPlugin root opts)) b me m) =
         Some (case check_mounted (processedServiceBindings (new_BindingsPlugin root opts)) m of
                 Some e \<Rightarrow> e
               | None \<Rightarrow> AssertionError (Some ''beforeReload() must be called before reload()''))"
  using new_never_closed [OF assms, of root opts]
  by (simp add: reload_def run_processed Let_def split: option.splits)

theorem reload_before_any_beforeReload_fails_witness:
  "fst (reload (run [] auth_plugin) Map.empty Map.empty mounts_one) =
     Some (AssertionError (Some ''beforeReload() must be called before reload()''))"
proof -
  have h1: "BeforeReload \<notin> set ([] :: string event list)" by simp
  have h2: "Dispose \<notin> set ([] :: string event list)" by simp
  show ?thesis
    using reload_before_any_beforeReload_fails [OF h1 h2, of "''/app''"
        "no_options\<lparr>opt_serviceBindings := Some [(''AUTH'', JustName ''auth'')]\<rparr>"
        Map.empty Map.empty mounts_one]
    by (simp add: auth_plugin_def new_BindingsPlugin_def no_options_def mounts_one_def)
qed

text \<open>
  After one complete cycle, a second \<open>reload\<close> that no \<open>beforeReload\<close> precedes throws
  nothing and adopts the new mount table.
\<close>

theorem second_reload_without_beforeReload_succeeds:
  "fst (reload (run [BeforeReload, Reload Map.empty Map.empty mounts_one] auth_plugin)
          Map.empty Map.empty mounts_two) = None \<and>
   mounts (snd (reload (run [BeforeReload, Reload Map.empty Map.empty mounts_one] auth_plugin)
          Map.empty Map.empty mounts_two)) = Some mounts_two"
  by (simp add: lifecycle_defs mounts_one_def mounts_two_def)

subsection \<open>Services that are not mounted\<close>

lemma check_mounted_find:
  "check_mounted bs m =
     (case find (unmounted m) bs of
        None \<Rightarrow> None
      | Some b \<Rightarrow> Some (MiniflareCoreError ''ERR_SERVICE_NOT_MOUNTED''
                        (not_mounted_message (service_name b) (name b))))"
  by (induction bs) (auto simp: unmounted_def service_name_def split: service_target.splits)

lemma find_unmounted_Some:
  "b \<in> set bs \<Longrightarrow> unmounted m b \<Longrightarrow> \<exists>b0. find (unmounted m) bs = Some b0"
  by (cases "find (unmounted m) bs") (auto simp: find_None_iff)

lemma message_names_service: "sublist svc (not_mounted_message svc n)"
  unfolding not_mounted_message_def
  by (metis sublist_appendI append.assoc)

lemma message_names_binding: "sublist n (not_mounted_message svc n)"
proof -
  have "not_mounted_message svc n =
          (''Service '' @ [CHR 0x22] @ svc @ [CHR 0x22] @ '' for binding '' @ [CHR 0x22]) @ n @
          ([CHR 0x22] @ '' not found.'' @ [CHR 0x0A] @ ''Make sure '' @ [CHR 0x22] @ svc
             @ [CHR 0x22] @ '' is mounted so Miniflare knows where to find it.'')"
    by (simp add: not_mounted_message_def)
  then show ?thesis
    by (metis sublist_appendI)
qed

lemma resume_rejection:
  "resume log_error s lg (Awaiting p svc request) = (Settled (Inl e), lg') \<Longrightarrow>
   e = AssertionError None \<or> (\<exists>e0 lg0. fst (log_error e0 lg0) = Some e)"
proof (cases "p < length (promises s) \<and> promises s ! p = Fulfilled")
  case False
  assume "resume log_error s lg (Awaiting p svc request) = (Settled (Inl e), lg')"
  with False show ?thesis by (auto split: if_splits)
next
  case True
  assume r: "resume log_error s lg (Awaiting p svc request) = (Settled (Inl e), lg')"
  show ?thesis
  proof (cases "getServiceFetch_resume s svc")
    case (Inl a)
    then have "a = AssertionError None"
      by (auto simp: getServiceFetch_resume_def split: option.splits)
    with r True Inl show ?thesis by simp
  next
    case (Inr fetch)
    with r True have c: "fetch_contained log_error fetch request lg = (Settled (Inl e), lg')"
      by simp
    then obtain e0 where "fetch request = Inl e0"
      by (cases "fetch request") (auto simp: fetch_contained_def)
    with c have "fst (log_error e0 lg) = Some e"
      by (cases "log_error e0 lg") (auto simp: fetch_contained_def split: option.splits)
    then show ?thesis by blast
  qed
qed

text \<open>
  C2: when a processed service binding names a service that is not a key of the mount
  table passed to \<open>reload\<close>, \<open>reload\<close> itself throws the configuration error
  \<open>ERR_SERVICE_NOT_MOUNTED\<close>, whose message contains the name of the first such binding
  and the name of its service, and it leaves the plugin as it was: no promise is
  fulfilled and the mount table is not adopted. A dispatch does not raise that error:
  what a resumed dispatch rejects with is the assertion error of \<open>getServiceFetch\<close> or
  what the logger throws.
\<close>

theorem reload_unmounted_service_fails:
  assumes "b \<in> set (processedServiceBindings s)" and "unmounted m b"
  shows "\<exists>b0. find (unmounted m) (processedServiceBindings s) = Some b0 \<and>
           reload s bnds moduleExports m =
             (Some (MiniflareCoreError ''ERR_SERVICE_NOT_MOUNTED''
                      (not_mounted_message (service_name b0) (name b0))), s) \<and>
           sublist (name b0) (not_mounted_message (service_name b0) (name b0)) \<and>
           sublist (service_name b0) (not_mounted_message (service_name b0) (name b0)) \<and>
           (resume log_error t lg (Awaiting p svc request) = (Settled (Inl e), lg') \<longrightarrow>
              e = AssertionError None \<or> (\<exists>e0 lg0. fst (log_error e0 lg0) = Some e))"
proof -
  obtain b0 where b0: "find (unmounted m) (processedServiceBindings s) = Some b0"
    using find_unmounted_Some [OF assms] by blast
  have r: "reload s bnds moduleExports m =
          (Some (MiniflareCoreError ''ERR_SERVICE_NOT_MOUNTED''
                   (not_mounted_message (service_name b0) (name b0))), s)"
    by (simp add: reload_def check_mounted_find b0)
  have d: "resume log_error t lg (Awaiting p svc request) = (Settled (Inl e), lg') \<longrightarrow>
             e = AssertionError None \<or> (\<exists>e0 lg0. fst (log_error e0 lg0) = Some e)"
    by (rule impI) (rule resume_rejection)
  show ?thesis
    by (intro exI [of _ b0] conjI b0 r d message_names_binding message_names_service)
qed

theorem reload_unmounted_service_fails_witness:
  "reload (run [BeforeReload] auth_plugin) Map.empty Map.empty Map.empty =
     (Some (MiniflareCoreError ''ERR_SERVICE_NOT_MOUNTED''
              (not_mounted_message ''auth'' ''AUTH'')), run [BeforeReload] auth_plugin) \<and>
   promises (run [BeforeReload] auth_plugin) = [Pending] \<and>
   mounts (run [BeforeReload] auth_plugin) = None"
proof -
  let ?b = "\<lparr>name = ''AUTH'', service = Named ''auth'', environment = ''production''\<rparr>
              :: string ProcessedServiceBinding"
  have h1: "?b \<in> set (processedServiceBindings (run [BeforeReload] auth_plugin))"
    by (simp add: lifecycle_defs)
  have h2: "unmounted Map.empty ?b"
    by (simp add: unmounted_def)
  have f: "find (unmounted Map.empty) (processedServiceBindings (run [BeforeReload] auth_plugin))
             = Some ?b"
    by (simp add: lifecycle_defs unmounted_def)
  show ?thesis
    using reload_unmounted_service_fails [OF h1 h2, of Map.empty Map.empty] f
    by (auto simp: service_name_def) (simp_all add: lifecycle_defs)
qed

subsection \<open>Suspended dispatches\<close>

text \<open>
  C8: a dispatch waits for the promise that was current when it was issued. If that
  promise is still pending when \<open>beforeReload\<close> is called again, no later sequence of
  lifecycle calls fulfils it, and the dispatch stays suspended: a \<open>reload\<close> changes no
  promise but the one of the latest \<open>beforeReload\<close>.
\<close>

theorem superseded_wait_never_resolved:
  assumes "s0 = run es0 (new_BindingsPlugin root opts)"
    and "Fetcher_fetch newRequest s0 f input = Awaiting p svc request"
    and "s1 = run es1 s0"
    and "promises s1 ! p = Pending"
  shows "promises (run es (beforeReload s1)) ! p = Pending \<and>
         resume log_error (run es (beforeReload s1)) lg (Awaiting p svc request) =
           (Awaiting p svc request, lg) \<and>
         (contextResolve t \<noteq> Some p \<longrightarrow>
            promises (snd (reload t bnds moduleExports m)) ! p = promises t ! p)"
proof -
  have "contextPromise s0 = Some p"
    using assms(2) by (rule awaited_is_contextPromise)
  moreover have "allocated s0"
    unfolding assms(1) by (rule new_allocated)
  ultimately have "p < length (promises s0)"
    by (simp add: allocated_def)
  also have "\<dots> \<le> length (promises s1)"
    unfolding assms(3) by (rule run_length)
  finally have "orphaned p (beforeReload s1)"
    using assms(4) by (rule beforeReload_orphans)
  then have "orphaned p (run es (beforeReload s1))"
    by (rule run_orphaned)
  then show ?thesis
    by (simp add: orphaned_def reload_promises_other)
qed

theorem superseded_wait_never_resolved_witness:
  "Fetcher_fetch Inr (run [BeforeReload] auth_plugin)
     \<lparr>fetcher_service = Named ''auth''\<rparr> ''GET /'' = Awaiting 0 ''auth'' ''GET /'' \<and>
   promises (run [Reload Map.empty Map.empty mounts_one]
               (beforeReload (run [Reload Map.empty Map.empty Map.empty]
                  (run [BeforeReload] auth_plugin)))) = [Pending, Fulfilled] \<and>
   resume recording_log (run [Reload Map.empty Map.empty mounts_one]
             (beforeReload (run [Reload Map.empty Map.empty Map.empty]
                (run [BeforeReload] auth_plugin)))) []
     (Awaiting 0 ''auth'' ''GET /'') = (Awaiting 0 ''auth'' ''GET /'', [])"
proof -
  let ?s0 = "run [BeforeReload] auth_plugin"
  let ?s1 = "run [Reload Map.empty Map.empty Map.empty] ?s0"
  have h1: "?s0 = run [BeforeReload]
      (new_BindingsPlugin ''/app''
         (no_options\<lparr>opt_serviceBindings := Some [(''AUTH'', JustName ''auth'')]\<rparr>))"
    by (simp add: auth_plugin_def)
  have h2: "Fetcher_fetch Inr ?s0 \<lparr>fetcher_service = Named ''auth''\<rparr> ''GET /'' =
              Awaiting 0 ''auth'' ''GET /''"
    by (simp add: Fetcher_fetch_def getServiceFetch_begin_def lifecycle_defs)
  have h3: "?s1 = run [Reload Map.empty Map.empty Map.empty] ?s0"
    by simp
  have h4: "promises ?s1 ! 0 = Pending"
    by (simp add: lifecycle_defs)
  have p: "promises (run [Reload Map.empty Map.empty mounts_one] (beforeReload ?s1)) =
             [Pending, Fulfilled]"
    by (simp add: lifecycle_defs mounts_one_def)
  show ?thesis
    using h2 p
      superseded_wait_never_resolved [OF h1 h2 h3 h4,
        of "[Reload Map.empty Map.empty mounts_one]" recording_log "[]"]
    by simp
qed

text \<open>
  C1: a dispatch to a named service that was suspended when it was issued, in the plugin
  \<open>s0\<close>, and resumes after further lifecycle calls, in the plugin \<open>s1\<close>, calls the
  entry point that the mount table of \<open>s1\<close> holds for its service, whatever the mount
  table of \<open>s0\<close> was, and the caller gets the response of that entry point: with \<open>H1\<close>
  mounted when it was issued and \<open>H2\<close> mounted by a second cycle before it resumes, it
  calls \<open>H2\<close>.
\<close>

theorem resumed_dispatch_uses_current_mounts:
  assumes "Fetcher_fetch newRequest s0 f input = Awaiting p svc request"
    and "s1 = run es s0"
    and "p < length (promises s1)" and "promises s1 ! p = Fulfilled"
    and "mounts s1 = Some m1" and "m1 svc = Some mt" and "dispatchFetch mt = Some h"
  shows "resume log_error s1 lg (Awaiting p svc request) =
           fetch_contained log_error h request lg \<and>
         (h request = Inr r \<longrightarrow>
            resume log_error s1 lg (Awaiting p svc request) = (Settled (Inr r), lg))"
  using assms(3-)
  by (simp add: getServiceFetch_resume_def fetch_contained_def)

theorem resumed_dispatch_uses_current_mounts_witness:
  "Fetcher_fetch Inr (run [BeforeReload, Reload Map.empty Map.empty mounts_one] auth_plugin)
     \<lparr>fetcher_service = Named ''auth''\<rparr> ''GET /'' = Awaiting 0 ''auth'' ''GET /'' \<and>
   resume recording_log
     (run [BeforeReload, Reload Map.empty Map.empty mounts_two]
        (run [BeforeReload, Reload Map.empty Map.empty mounts_one] auth_plugin))
     [] (Awaiting 0 ''auth'' ''GET /'') = (Settled (Inr response_two), []) \<and>
   response_one \<noteq> response_two"
proof -
  let ?s0 = "run [BeforeReload, Reload Map.empty Map.empty mounts_one] auth_plugin"
  let ?s1 = "run [BeforeReload, Reload Map.empty Map.empty mounts_two] ?s0"
  let ?h = "(\<lambda>request. Inr response_two) :: string FetcherFetch"
  have h1: "Fetcher_fetch Inr ?s0 \<lparr>fetcher_service = Named ''auth''\<rparr> ''GET /'' =
              Awaiting 0 ''auth'' ''GET /''"
    by (simp add: Fetcher_fetch_def getServiceFetch_begin_def lifecycle_defs mounts_one_def)
  have h2: "?s1 = run [BeforeReload, Reload Map.empty Map.empty mounts_two] ?s0"
    by simp
  have h3: "0 < length (promises ?s1)"
    by (simp add: lifecycle_defs mounts_one_def mounts_two_def)
  have h4: "promises ?s1 ! 0 = Fulfilled"
    by (simp add: lifecycle_defs mounts_one_def mounts_two_def)
  have h5: "mounts ?s1 = Some mounts_two"
    by (simp add: lifecycle_defs mounts_one_def mounts_two_def)
  have h6: "mounts_two ''auth'' = Some \<lparr>dispatchFetch = Some ?h\<rparr>"
    by (simp add: mounts_two_def)
  have h7: "dispatchFetch \<lparr>dispatchFetch = Some ?h\<rparr> = Some ?h"
    by simp
  have "resume recording_log ?s1 [] (Awaiting 0 ''auth'' ''GET /'') =
          (Settled (Inr response_two), [])"
    using resumed_dispatch_uses_current_mounts
      [OF h1 h2 h3 h4 h5 h6 h7,
        where r = response_two and log_error = recording_log and lg = "[]", THEN conjunct2]
    by (simp del: resume.simps)
  then show ?thesis
    using h1 by (simp add: response_one_def response_two_def)
qed

subsection \<open>A target that throws\<close>

text \<open>
  When the entry point of the target throws or rejects and the logger returns, the caller
  gets the response with status 500 and the header \<open>CF-Worker-Status: exception\<close>, which
  does not depend on the error.
\<close>

lemma failure_contained_when_logged:
  assumes "p < length (promises s)" and "promises s ! p = Fulfilled"
    and "mounts s = Some m" and "m svc = Some mt" and "dispatchFetch mt = Some h"
    and "h request = Inl e" and "log_error e lg = (None, lg')"
  shows "resume log_error s lg (Awaiting p svc request) =
           (Settled (Inr \<lparr>body = None, status = 500,
                         headers = [(''CF-Worker-Status'', ''exception'')]\<rparr>), lg')"
  using assms
  by (simp add: getServiceFetch_resume_def fetch_contained_def exception_response_def)

lemma failure_contained_example:
  "resume recording_log
     (run [BeforeReload, Reload Map.empty Map.empty mounts_failing] auth_plugin) []
     (Awaiting 0 ''auth'' ''GET /'') =
   (Settled (Inr \<lparr>body = None, status = 500,
                  headers = [(''CF-Worker-Status'', ''exception'')]\<rparr>), [Thrown ''boom''])"
  by (simp add: lifecycle_defs mounts_failing_def getServiceFetch_resume_def
        fetch_contained_def exception_response_def recording_log_def)

text \<open>
  C3: a dispatch to a named service whose target throws is to give the caller a response
  with status 500 and to pass the error to the logger, never the error itself. The call
  of the logger stands unguarded in the \<open>catch\<close> block, so with a logger that throws the
  error it is given the dispatch is rejected with the error of the target: the caller
  gets no response, and nothing is recorded.
\<close>

theorem named_service_failure_escapes_through_log:
  "Fetcher_fetch Inr (run [BeforeReload] auth_plugin)
     \<lparr>fetcher_service = Named ''auth''\<rparr> ''GET /'' = Awaiting 0 ''auth'' ''GET /'' \<and>
   resume rethrowing_log
     (run [BeforeReload, Reload Map.empty Map.empty mounts_failing] auth_plugin) []
     (Awaiting 0 ''auth'' ''GET /'') = (Settled (Inl (Thrown ''boom'')), [])"
  by (simp add: Fetcher_fetch_def getServiceFetch_begin_def lifecycle_defs mounts_failing_def
        getServiceFetch_resume_def fetch_contained_def rethrowing_log_def)

section \<open>Dispatch to a raw handler\<close>

text \<open>
  C7: a dispatch through a Fetcher that wraps a handler function calls the handler on the
  freshly constructed request and gives the caller the handler's response or failure as it
  is; it is settled at once, whatever the state of the plugin.
\<close>

theorem custom_handler_dispatch_direct:
  "Fetcher_fetch newRequest s \<lparr>fetcher_service = Custom h\<rparr> input =
     Settled (case newRequest input of Inl e \<Rightarrow> Inl e | Inr request \<Rightarrow> h request)"
  by (simp add: Fetcher_fetch_def split: sum.splits)

section \<open>The composed bindings and the watch list\<close>

lemma Object_assign_assoc:
  "Object_assign (Object_assign b (Some m1)) (Some m2) = Object_assign b (Some (m1 ++ m2))"
  by (auto simp: Object_assign_def fun_eq_iff map_add_def split: option.splits)

lemma Object_assign_empty: "Object_assign b (Some Map.empty) = b"
  by (auto simp: Object_assign_def fun_eq_iff)

lemma set_property_assign: "set_property b k v = Object_assign b (Some [k \<mapsto> v])"
  by (auto simp: set_property_def Object_assign_def fun_eq_iff map_add_def)

lemma load_env_shape:
  assumes "load_env h p (b, w) = Inr st"
  shows "st = (Object_assign b (Some (env_source h p)), w @ env_watch h p)"
proof (cases "env_path_in_effect p")
  case None
  then have "load_env h p (b, w) = Inr (b, w)"
    by (auto simp: load_env_def env_path_in_effect_def
             split: option.splits env_path.splits bool.splits if_splits)
  then show ?thesis
    using assms None by (simp add: env_source_def env_watch_def Object_assign_empty)
next
  case (Some ep)
  let ?path = "path_resolve h (rootPath p) ep"
  show ?thesis
  proof (cases "readFile h ?path")
    case (Inl e)
    have "load_env h p (b, w) =
            (if \<not> (code e = Some ''ENOENT'' \<and> envPath p = Some (EnvBool True))
             then Inl e else Inr (b, w @ [?path]))"
      using Some Inl
      by (auto simp: load_env_def env_path_in_effect_def Let_def
               split: option.splits env_path.splits bool.splits if_splits)
    then show ?thesis
      using assms Some Inl
      by (auto simp: env_source_def env_watch_def Object_assign_empty split: if_splits)
  next
    case (Inr contents)
    have "load_env h p (b, w) =
            Inr (Object_assign b (Some (map_option Str \<circ> dotenv_parse h contents)),
                 w @ [?path])"
      using Some Inr
      by (auto simp: load_env_def env_path_in_effect_def Let_def
               split: option.splits env_path.splits bool.splits if_splits)
    then show ?thesis
      using assms Some Inr by (auto simp: env_source_def env_watch_def)
  qed
qed

lemma load_wasm_loads:
  "load_wasm h root entries st = Inr st' \<Longrightarrow> entry \<in> set entries \<Longrightarrow>
   \<exists>md. wasm_module h root (snd entry) = Some md"
proof (induction entries arbitrary: st)
  case Nil
  then show ?case by simp
next
  case (Cons e rest)
  from Cons.prems(1) obtain st1 where
    st1: "load_wasm_entry h root e st = Inr st1"
    and rest: "load_wasm h root rest st1 = Inr st'"
    by (auto split: sum.splits)
  show ?case
  proof (cases "entry = e")
    case True
    then show ?thesis
      using st1 by (auto simp: load_wasm_entry_def wasm_module_def Let_def split: sum.splits)
  next
    case False
    then show ?thesis
      using Cons.IH [OF rest] Cons.prems(2) by simp
  qed
qed

lemma wasm_entries_source_Cons:
  assumes "\<And>entry. entry \<in> set rest \<Longrightarrow> \<exists>md. wasm_module h root (snd entry) = Some md"
    and "wasm_module h root path = Some md"
  shows "wasm_entries_source h root ((n, path) # rest) =
           [n \<mapsto> WasmModule md] ++ wasm_entries_source h root rest"
proof
  fix k
  show "wasm_entries_source h root ((n, path) # rest) k =
          ([n \<mapsto> WasmModule md] ++ wasm_entries_source h root rest) k"
  proof (cases "map_of (rev rest) k")
    case None
    then show ?thesis
      using assms(2) by (simp add: wasm_entries_source_def map_add_def)
  next
    case (Some path')
    then have "(k, path') \<in> set rest"
      using map_of_SomeD [of "rev rest" k path'] by simp
    then obtain md' where "wasm_module h root path' = Some md'"
      using assms(1) [of "(k, path')"] by auto
    then show ?thesis
      using Some by (simp add: wasm_entries_source_def map_add_def)
  qed
qed

lemma load_wasm_shape:
  "load_wasm h root entries (b, w) = Inr st \<Longrightarrow>
   st = (Object_assign b (Some (wasm_entries_source h root entries)),
         w @ map (\<lambda>entry. path_resolve h root (snd entry)) entries)"
proof (induction entries arbitrary: b w)
  case Nil
  then show ?case
    by (simp add: wasm_entries_source_def Object_assign_empty)
next
  case (Cons entry rest)
  obtain n path where entry: "entry = (n, path)"
    by (cases entry)
  from Cons.prems obtain st1 where
    st1: "load_wasm_entry h root entry (b, w) = Inr st1"
    and rest: "load_wasm h root rest st1 = Inr st"
    by (auto split: sum.splits)
  from load_wasm_loads [OF Cons.prems, of entry] obtain md where
    md: "wasm_module h root path = Some md"
    using entry by auto
  have s1: "st1 = (set_property b n (WasmModule md), w @ [path_resolve h root path])"
    using st1 md entry
    by (auto simp: load_wasm_entry_def wasm_module_def Let_def split: sum.splits)
  have loads: "\<And>e. e \<in> set rest \<Longrightarrow> \<exists>md. wasm_module h root (snd e) = Some md"
    using load_wasm_loads [OF rest] by blast
  have "st = (Object_assign (set_property b n (WasmModule md))
                (Some (wasm_entries_source h root rest)),
              (w @ [path_resolve h root path])
                @ map (\<lambda>entry. path_resolve h root (snd entry)) rest)"
    using Cons.IH [of "set_property b n (WasmModule md)" "w @ [path_resolve h root path]"]
      rest s1 by simp
  then show ?case
    by (simp add: entry set_property_assign Object_assign_assoc
          wasm_entries_source_Cons [OF loads md])
qed

lemma wasm_stage_shape:
  assumes "(case wasmBindings p of None \<Rightarrow> Inr st0
            | Some entries \<Rightarrow> load_wasm h (rootPath p) entries st0) = Inr st"
  shows "st = (Object_assign (fst st0) (Some (wasm_source h p)), snd st0 @ wasm_watch h p)"
proof (cases "wasmBindings p")
  case None
  then show ?thesis
    using assms by (auto simp: wasm_source_def wasm_watch_def Object_assign_empty)
next
  case (Some entries)
  obtain b :: "'a Context" and w where st0: "st0 = (b, w)"
    by (cases st0)
  have "load_wasm h (rootPath p) entries (b, w) = Inr st"
    using assms Some st0 by simp
  then show ?thesis
    using load_wasm_shape [of h "rootPath p" entries b w st]
    by (simp add: wasm_source_def wasm_watch_def Some st0)
qed

lemma service_entries_source_Cons:
  "service_entries_source (sb # rest) =
     [name sb \<mapsto> FetcherValue \<lparr>fetcher_service = service sb\<rparr>] ++ service_entries_source rest"
  by (simp add: service_entries_source_def map_of_append)

lemma load_services_shape:
  "load_services sbs b = Object_assign b (Some (service_entries_source sbs))"
proof (induction sbs arbitrary: b)
  case Nil
  show ?case
    by (simp add: service_entries_source_def Object_assign_empty)
next
  case (Cons sb rest)
  show ?case
    by (simp add: Cons.IH set_property_assign Object_assign_assoc
          service_entries_source_Cons del: fun_upd_apply)
qed

lemma setup_shape:
  assumes "BindingsPlugin_setup h p = Inr r"
  shows "res_bindings r =
           Object_assign Map.empty
             (Some (wrangler_source p ++ env_source h p ++ wasm_source h p
                ++ service_source p ++ user_source p))"
    and "res_watch r = env_watch h p @ wasm_watch h p"
    and "res_globals r = globals p"
proof -
  let ?b1 = "Object_assign Map.empty (wranglerBindings p)"
  from assms obtain st2 where st2: "load_env h p (?b1, []) = Inr st2"
    by (auto simp: BindingsPlugin_setup_def Let_def split: sum.splits)
  from assms st2 obtain st3 where
    st3: "(case wasmBindings p of None \<Rightarrow> Inr st2
           | Some entries \<Rightarrow> load_wasm h (rootPath p) entries st2) = Inr st3"
    by (auto simp: BindingsPlugin_setup_def Let_def split: sum.splits)
  have r: "r = \<lparr>res_globals = globals p,
               res_bindings = Object_assign (load_services (processedServiceBindings p) (fst st3))
                                (bindings p),
               res_watch = snd st3\<rparr>"
    using assms st2 st3 by (simp add: BindingsPlugin_setup_def Let_def)
  have b1: "?b1 = Object_assign Map.empty (Some (wrangler_source p))"
    by (auto simp: Object_assign_def wrangler_source_def fun_eq_iff split: option.splits)
  have e2: "st2 = (Object_assign Map.empty (Some (wrangler_source p ++ env_source h p)),
                   env_watch h p)"
    using load_env_shape [OF st2] by (simp add: b1 Object_assign_assoc)
  have "st3 = (Object_assign (fst st2) (Some (wasm_source h p)), snd st2 @ wasm_watch h p)"
    using st3 by (rule wasm_stage_shape)
  then have e3: "st3 =
      (Object_assign Map.empty
         (Some (wrangler_source p ++ env_source h p ++ wasm_source h p)),
       env_watch h p @ wasm_watch h p)"
    by (simp add: e2 Object_assign_assoc)
  have u: "Object_assign b (bindings p) = Object_assign b (Some (user_source p))" for b
    by (auto simp: Object_assign_def user_source_def fun_eq_iff split: option.splits)
  show "res_bindings r =
           Object_assign Map.empty
             (Some (wrangler_source p ++ env_source h p ++ wasm_source h p
                ++ service_source p ++ user_source p))"
    by (simp add: r e3 u load_services_shape service_source_def Object_assign_assoc)
  show "res_watch r = env_watch h p @ wasm_watch h p"
    by (simp add: r e3)
  show "res_globals r = globals p"
    by (simp add: r)
qed

lemma highest_priority_five:
  "highest_priority [a, b, c, d, e] k = (a ++ b ++ c ++ d ++ e) k"
  by (simp add: map_add_def split: option.splits)

text \<open>
  The bindings that \<open>setup\<close> returns are composed in ascending priority from the platform
  variables, the variable file, the binary modules, the service bindings and the user's
  bindings: the value of a name other than \<open>__proto__\<close> is the value in the highest of the
  sources that have it, as it is there. The name \<open>__proto__\<close> is never bound.
\<close>

lemma composition_priority_overwrite:
  assumes "BindingsPlugin_setup h p = Inr r" and "k \<noteq> ''__proto__''"
  shows "res_bindings r k =
           highest_priority
             [wrangler_source p, env_source h p, wasm_source h p, service_source p,
              user_source p] k"
  using assms(2)
  by (simp only: setup_shape(1) [OF assms(1)] highest_priority_five) (simp add: Object_assign_def)

lemma composition_never_binds_proto:
  assumes "BindingsPlugin_setup h p = Inr r"
  shows "res_bindings r ''__proto__'' = None"
  by (simp add: setup_shape(1) [OF assms] Object_assign_def)

lemma env_source_read:
  "env_path_in_effect p = Some ep \<Longrightarrow>
   readFile h (path_resolve h (rootPath p) ep) = Inr contents \<Longrightarrow>
   env_source h p = map_option Str \<circ> dotenv_parse h contents"
  by (simp add: env_source_def)

lemma load_wasm_reads:
  "load_wasm h root entries st = Inr st' \<Longrightarrow> entry \<in> set entries \<Longrightarrow>
   \<exists>bytes. readFile h (path_resolve h root (snd entry)) = Inr bytes"
proof (induction entries arbitrary: st)
  case Nil
  then show ?case by simp
next
  case (Cons e rest)
  from Cons.prems(1) obtain st1 where
    st1: "load_wasm_entry h root e st = Inr st1"
    and rest: "load_wasm h root rest st1 = Inr st'"
    by (auto split: sum.splits)
  show ?case
  proof (cases "entry = e")
    case True
    then show ?thesis
      using st1 by (auto simp: load_wasm_entry_def Let_def split: sum.splits)
  next
    case False
    then show ?thesis
      using Cons.IH [OF rest] Cons.prems(2) by simp
  qed
qed

lemma load_env_no_path:
  "load_env h (p\<lparr>envPath := None\<rparr>) st = Inr st"
  by (simp add: load_env_def)

lemma load_env_default_missing:
  "envPath p = Some (EnvBool True) \<Longrightarrow>
   readFile h (path_resolve h (rootPath p) ''.env'') = Inl e \<Longrightarrow> code e = Some ''ENOENT'' \<Longrightarrow>
   load_env h p st = Inr (fst st, snd st @ [path_resolve h (rootPath p) ''.env''])"
  by (simp add: load_env_def Let_def)

lemma load_env_explicit_unreadable:
  "envPath p = Some (EnvPath ep) \<Longrightarrow> ep \<noteq> [] \<Longrightarrow>
   readFile h (path_resolve h (rootPath p) ep) = Inl e \<Longrightarrow>
   load_env h p st = Inl e"
  by (simp add: load_env_def Let_def)

lemma load_wasm_entry_watch:
  "load_wasm_entry h root entry (b, w @ w') =
     map_sum id (\<lambda>st. (fst st, w @ snd st)) (load_wasm_entry h root entry (b, w'))"
  by (simp add: load_wasm_entry_def Let_def split: sum.splits)

lemma load_wasm_watch:
  "load_wasm h root entries (b, w @ w') =
     map_sum id (\<lambda>st. (fst st, w @ snd st)) (load_wasm h root entries (b, w'))"
proof (induction entries arbitrary: b w')
  case Nil
  show ?case by simp
next
  case (Cons entry rest)
  show ?case
  proof (cases "load_wasm_entry h root entry (b, w')")
    case (Inl e)
    then show ?thesis
      by (simp add: load_wasm_entry_watch)
  next
    case (Inr st1)
    then show ?thesis
      using Cons.IH [of "fst st1" "snd st1"] by (simp add: load_wasm_entry_watch)
  qed
qed

lemma setup_default_missing:
  assumes "envPath p = Some (EnvBool True)"
    and "readFile h (path_resolve h (rootPath p) ''.env'') = Inl e"
    and "code e = Some ''ENOENT''"
  shows "BindingsPlugin_setup h p =
           map_sum id (\<lambda>r. r\<lparr>res_watch := path_resolve h (rootPath p) ''.env'' # res_watch r\<rparr>)
             (BindingsPlugin_setup h (p\<lparr>envPath := None\<rparr>))"
proof -
  let ?ep = "path_resolve h (rootPath p) ''.env''"
  let ?b1 = "Object_assign Map.empty (wranglerBindings p)"
  have env: "load_env h p (?b1, []) = Inr (?b1, [] @ [?ep])"
    using load_env_default_missing [OF assms, of "(?b1, [])"] by simp
  show ?thesis
  proof (cases "wasmBindings p")
    case None
    then show ?thesis
      by (simp add: BindingsPlugin_setup_def env load_env_no_path Let_def)
  next
    case (Some entries)
    have "load_wasm h (rootPath p) entries (?b1, [?ep] @ []) =
            map_sum id (\<lambda>st. (fst st, [?ep] @ snd st)) (load_wasm h (rootPath p) entries (?b1, []))"
      by (rule load_wasm_watch)
    then show ?thesis
      using Some
      by (cases "load_wasm h (rootPath p) entries (?b1, [])")
         (simp_all add: BindingsPlugin_setup_def env load_env_no_path Let_def)
  qed
qed

lemma wasm_watch_read:
  assumes "BindingsPlugin_setup h p = Inr r" and "w \<in> set (wasm_watch h p)"
  shows "\<exists>bytes. readFile h w = Inr bytes"
proof (cases "wasmBindings p")
  case None
  then show ?thesis
    using assms(2) by (simp add: wasm_watch_def)
next
  case (Some entries)
  have "\<exists>(st2 :: 'a Context \<times> string list) st3.
          load_wasm h (rootPath p) entries st2 = Inr st3"
    using assms(1) Some by (auto simp: BindingsPlugin_setup_def Let_def split: sum.splits)
  then obtain st2 :: "'a Context \<times> string list" and st3
    where "load_wasm h (rootPath p) entries st2 = Inr st3"
    by blast
  moreover from assms(2) Some obtain entry where
    "entry \<in> set entries" and "w = path_resolve h (rootPath p) (snd entry)"
    by (auto simp: wasm_watch_def)
  ultimately show ?thesis
    using load_wasm_reads by blast
qed

lemmas setup_defs =
  BindingsPlugin_setup_def load_env_def load_wasm_entry_def Object_assign_def set_property_def
  new_BindingsPlugin_def no_options_def example_host_def Let_def

lemma composition_override_example:
  "\<exists>r. BindingsPlugin_setup example_host override_plugin = Inr r \<and>
       env_source example_host override_plugin ''A'' = Some (Str ''file-value'') \<and>
       user_source override_plugin ''A'' = Some (Str ''override'') \<and>
       res_bindings r ''A'' = Some (Str ''override'')"
proof -
  have "\<exists>r. BindingsPlugin_setup example_host override_plugin = Inr r"
    by (simp add: setup_defs override_plugin_def)
  then obtain r where r: "BindingsPlugin_setup example_host override_plugin = Inr r"
    by blast
  have e: "env_source example_host override_plugin ''A'' = Some (Str ''file-value'')"
    by (simp add: env_source_def env_path_in_effect_def setup_defs override_plugin_def)
  have u: "user_source override_plugin ''A'' = Some (Str ''override'')"
    by (simp add: user_source_def setup_defs override_plugin_def)
  have "res_bindings r ''A'' = Some (Str ''override'')"
    using composition_priority_overwrite [OF r, of "''A''"] u by simp
  then show ?thesis
    using r e u by blast
qed

text \<open>
  C4: for every name that two or more sources contribute, the composed value is to be
  that of the highest of them. The bindings are written onto a plain object, so the name
  \<open>__proto__\<close> is missed: with \<open>__proto__\<close> among the service bindings and among the
  user's bindings, the highest source that has the name gives \<open>override\<close>, and the
  bindings that \<open>setup\<close> returns have no value for it.
\<close>

theorem composition_misses_proto:
  "service_source proto_plugin ''__proto__'' =
     Some (FetcherValue \<lparr>fetcher_service = Named ''auth''\<rparr>) \<and>
   user_source proto_plugin ''__proto__'' = Some (Str ''override'') \<and>
   highest_priority
     [wrangler_source proto_plugin, env_source example_host proto_plugin,
      wasm_source example_host proto_plugin, service_source proto_plugin,
      user_source proto_plugin] ''__proto__'' = Some (Str ''override'') \<and>
   map_sum id (\<lambda>r. res_bindings r ''__proto__'')
     (BindingsPlugin_setup example_host proto_plugin) = Inr None"
  by (simp add: wrangler_source_def user_source_def env_source_def env_path_in_effect_def
        wasm_source_def service_source_def service_entries_source_def
        setup_defs proto_plugin_def)

text \<open>
  C9: when the env path is the default one (\<open>envPath\<close> is \<open>true\<close>) and the file does not
  exist, the file contributes nothing and raises no error: the step of the env file
  leaves the bindings as they are, and \<open>setup\<close> does what it does without an env path,
  with the path of the file added in front of the watch list. When
  the env path is a path given as a string and the file cannot be read, \<open>setup\<close> fails
  with the error of the read.
\<close>

theorem env_file_missing_or_unreadable:
  "(envPath p = Some (EnvBool True) \<and>
    readFile h (path_resolve h (rootPath p) ''.env'') = Inl e \<and> code e = Some ''ENOENT'' \<longrightarrow>
      env_source h p = Map.empty \<and>
      load_env h p st = Inr (fst st, snd st @ [path_resolve h (rootPath p) ''.env'']) \<and>
      BindingsPlugin_setup h p =
        map_sum id (\<lambda>r. r\<lparr>res_watch := path_resolve h (rootPath p) ''.env'' # res_watch r\<rparr>)
          (BindingsPlugin_setup h (p\<lparr>envPath := None\<rparr>))) \<and>
   (envPath p = Some (EnvPath ep) \<and> ep \<noteq> [] \<and>
    readFile h (path_resolve h (rootPath p) ep) = Inl e \<longrightarrow>
      BindingsPlugin_setup h p = Inl e)"
proof (intro conjI impI)
  assume a: "envPath p = Some (EnvBool True) \<and>
    readFile h (path_resolve h (rootPath p) ''.env'') = Inl e \<and> code e = Some ''ENOENT''"
  then show "env_source h p = Map.empty"
    by (simp add: env_source_def env_path_in_effect_def)
  from a show "load_env h p st = Inr (fst st, snd st @ [path_resolve h (rootPath p) ''.env''])"
    by (simp add: load_env_default_missing)
  from a show "BindingsPlugin_setup h p =
        map_sum id (\<lambda>r. r\<lparr>res_watch := path_resolve h (rootPath p) ''.env'' # res_watch r\<rparr>)
          (BindingsPlugin_setup h (p\<lparr>envPath := None\<rparr>))"
    by (simp add: setup_default_missing)
next
  assume "envPath p = Some (EnvPath ep) \<and> ep \<noteq> [] \<and>
    readFile h (path_resolve h (rootPath p) ep) = Inl e"
  then show "BindingsPlugin_setup h p = Inl e"
    by (simp add: BindingsPlugin_setup_def load_env_explicit_unreadable)
qed

theorem env_file_missing_or_unreadable_witness:
  "env_source example_host default_env_plugin = Map.empty \<and>
   map_sum id res_watch (BindingsPlugin_setup example_host default_env_plugin) =
     Inr [''/app/.env'', ''/app/add.wasm''] \<and>
   BindingsPlugin_setup example_host missing_env_plugin =
     Inl (SystemError ''ENOENT'' ''no such file or directory'')"
proof -
  let ?e = "SystemError ''ENOENT'' ''no such file or directory''"
  have a: "envPath default_env_plugin = Some (EnvBool True) \<and>
    readFile example_host (path_resolve example_host (rootPath default_env_plugin) ''.env'') = Inl ?e \<and>
    code ?e = Some ''ENOENT''"
    by (simp add: setup_defs default_env_plugin_def)
  have b: "envPath missing_env_plugin = Some (EnvPath ''absent.env'') \<and> ''absent.env'' \<noteq> [] \<and>
    readFile example_host (path_resolve example_host (rootPath missing_env_plugin) ''absent.env'')
      = Inl ?e"
    by (simp add: setup_defs missing_env_plugin_def)
  have rest: "map_sum id res_watch
      (BindingsPlugin_setup example_host (default_env_plugin\<lparr>envPath := None\<rparr>)) =
        Inr [''/app/add.wasm'']"
    by (simp add: setup_defs default_env_plugin_def)
  note t = env_file_missing_or_unreadable
      [of default_env_plugin example_host ?e "(Map.empty, [])", THEN conjunct1, THEN mp, OF a]
  have 1: "env_source example_host default_env_plugin = Map.empty \<and>
      BindingsPlugin_setup example_host default_env_plugin =
        map_sum id (\<lambda>r. r\<lparr>res_watch :=
            path_resolve example_host (rootPath default_env_plugin) ''.env'' # res_watch r\<rparr>)
          (BindingsPlugin_setup example_host (default_env_plugin\<lparr>envPath := None\<rparr>))"
    using t by blast
  have 2: "BindingsPlugin_setup example_host missing_env_plugin = Inl ?e"
    using env_file_missing_or_unreadable
      [where p = missing_env_plugin and h = example_host and e = ?e and ep = "''absent.env''",
        THEN conjunct2] b by blast
  have w: "path_resolve example_host (rootPath default_env_plugin) ''.env'' = ''/app/.env''"
    by (simp add: setup_defs default_env_plugin_def)
  have "map_sum id res_watch (BindingsPlugin_setup example_host default_env_plugin) =
     Inr [''/app/.env'', ''/app/add.wasm'']"
    using rest
    by (cases "BindingsPlugin_setup example_host (default_env_plugin\<lparr>envPath := None\<rparr>)")
       (simp_all add: 1 w)
  then show ?thesis
    using 1 2 by blast
qed

text \<open>
  C10: whenever an env path is in effect, the watch list that \<open>setup\<close> returns starts
  with the resolved env path, whether or not the file was read; it goes on with the
  resolved paths of the WebAssembly bindings, each of which has been read: a binding
  whose file cannot be read ends the loop with the error, before its path is appended.
\<close>

theorem watch_list_env_path_and_wasm_paths:
  assumes "BindingsPlugin_setup h p = Inr r" and "env_path_in_effect p = Some ep"
  shows "res_watch r = path_resolve h (rootPath p) ep # wasm_watch h p \<and>
         (\<forall>w \<in> set (wasm_watch h p). \<exists>bytes. readFile h w = Inr bytes) \<and>
         (\<forall>(entry :: string \<times> string) st e. readFile h (path_resolve h (rootPath p) (snd entry)) = Inl e \<longrightarrow>
            load_wasm_entry h (rootPath p) entry (st :: 'a Context \<times> string list) = Inl e)"
proof (intro conjI ballI allI impI)
  show "res_watch r = path_resolve h (rootPath p) ep # wasm_watch h p"
    using setup_shape(2) [OF assms(1)] assms(2) by (simp add: env_watch_def)
next
  fix w assume "w \<in> set (wasm_watch h p)"
  then show "\<exists>bytes. readFile h w = Inr bytes"
    using wasm_watch_read [OF assms(1)] by blast
next
  fix entry :: "string \<times> string" and st :: "'a Context \<times> string list" and e
  assume "readFile h (path_resolve h (rootPath p) (snd entry)) = Inl e"
  then show "load_wasm_entry h (rootPath p) entry st = Inl e"
    by (simp add: load_wasm_entry_def Let_def)
qed

theorem watch_list_env_path_and_wasm_paths_witness:
  "\<exists>r. BindingsPlugin_setup example_host default_env_plugin = Inr r \<and>
       readFile example_host ''/app/.env'' = Inl (SystemError ''ENOENT'' ''no such file or directory'') \<and>
       res_watch r = [''/app/.env'', ''/app/add.wasm''] \<and>
       readFile example_host ''/app/add.wasm'' = Inr ''module-bytes''"
proof -
  have "\<exists>r. BindingsPlugin_setup example_host default_env_plugin = Inr r"
    by (simp add: setup_defs default_env_plugin_def)
  then obtain r where r: "BindingsPlugin_setup example_host default_env_plugin = Inr r"
    by blast
  have e: "env_path_in_effect default_env_plugin = Some ''.env''"
    by (simp add: env_path_in_effect_def setup_defs default_env_plugin_def)
  have "res_watch r = [''/app/.env'', ''/app/add.wasm'']"
    using watch_list_env_path_and_wasm_paths [OF r e]
    by (simp add: wasm_watch_def setup_defs default_env_plugin_def)
  moreover have "readFile example_host ''/app/.env'' =
      Inl (SystemError ''ENOENT'' ''no such file or directory'')"
    by (simp add: example_host_def)
  moreover have "readFile example_host ''/app/add.wasm'' = Inr ''module-bytes''"
    by (simp add: example_host_def)
  ultimately show ?thesis
    using r by blast
qed

end
